theory Spec2Isabelle
  imports Main "HOL-Library.Multiset" "HOL-Library.Sublist"
begin

section \<open>Strings of the host language\<close>

text \<open>
  A string is a list of 8-bit characters: the strings whose code units are below 256,
  the Latin-1 range. \<open>toLowerCase\<close> maps the upper-case letters of that range, ASCII and
  accented, to their lower-case forms, which lie in the range too.
\<close>

definition latin1Upper :: "char list" where
  "latin1Upper =
     [CHR 0xC0, CHR 0xC1, CHR 0xC2, CHR 0xC3, CHR 0xC4, CHR 0xC5, CHR 0xC6, CHR 0xC7, CHR
      0xC8, CHR 0xC9, CHR 0xCA, CHR 0xCB, CHR 0xCC, CHR 0xCD, CHR 0xCE, CHR 0xCF, CHR
      0xD0, CHR 0xD1, CHR 0xD2, CHR 0xD3, CHR 0xD4, CHR 0xD5, CHR 0xD6, CHR 0xD8, CHR
      0xD9, CHR 0xDA, CHR 0xDB, CHR 0xDC, CHR 0xDD, CHR 0xDE]"

definition latin1Lower :: "char list" where
  "latin1Lower =
     [CHR 0xE0, CHR 0xE1, CHR 0xE2, CHR 0xE3, CHR 0xE4, CHR 0xE5, CHR 0xE6, CHR 0xE7, CHR
      0xE8, CHR 0xE9, CHR 0xEA, CHR 0xEB, CHR 0xEC, CHR 0xED, CHR 0xEE, CHR 0xEF, CHR
      0xF0, CHR 0xF1, CHR 0xF2, CHR 0xF3, CHR 0xF4, CHR 0xF5, CHR 0xF6, CHR 0xF8, CHR
      0xF9, CHR 0xFA, CHR 0xFB, CHR 0xFC, CHR 0xFD, CHR 0xFE]"

definition lowerChar :: "char \<Rightarrow> char" where
  "lowerChar c =
     (case map_of (zip (''ABCDEFGHIJKLMNOPQRSTUVWXYZ'' @ latin1Upper)
                       (''abcdefghijklmnopqrstuvwxyz'' @ latin1Lower)) c of
        Some d \<Rightarrow> d
      | None \<Rightarrow> c)"

definition toLowerCase :: "string \<Rightarrow> string" where
  "toLowerCase s = map lowerChar s"

text \<open>
  \<open>toUpperCase\<close> can leave the range and can lengthen the string: sharp s becomes
  \<open>SS\<close>, the micro sign becomes the Greek capital mu (U+039C) and y with diaeresis
  becomes U+0178. Its result is therefore given as a list of code units; \<open>codeUnits\<close>
  are the code units of a string of the model.
\<close>

definition codeUnits :: "string \<Rightarrow> nat list" where
  "codeUnits s = map of_char s"

definition upperTable :: "(char \<times> nat list) list" where
  "upperTable =
     zip (''abcdefghijklmnopqrstuvwxyz'' @ latin1Lower)
         (map (\<lambda>c. [of_char c]) (''ABCDEFGHIJKLMNOPQRSTUVWXYZ'' @ latin1Upper)) @
     [(CHR 0xDF, [0x53, 0x53]), (CHR 0xB5, [0x39C]), (CHR 0xFF, [0x178])]"

definition upperUnits :: "char \<Rightarrow> nat list" where
  "upperUnits c = (case map_of upperTable c of Some u \<Rightarrow> u | None \<Rightarrow> [of_char c])"

definition toUpperCase :: "string \<Rightarrow> nat list" where
  "toUpperCase s = concat (map upperUnits s)"

text \<open>\<open>startsWith s p\<close>: the string \<open>s\<close> begins with \<open>p\<close>.\<close>

fun startsWith :: "string \<Rightarrow> string \<Rightarrow> bool" where
  "startsWith s [] = True"
| "startsWith [] (p # ps) = False"
| "startsWith (c # cs) (p # ps) = (c = p \<and> startsWith cs ps)"

text \<open>\<open>includesStr s sub\<close> is \<open>s.includes(sub)\<close>: \<open>sub\<close> occurs in \<open>s\<close> as a substring.\<close>

fun includesStr :: "string \<Rightarrow> string \<Rightarrow> bool" where
  "includesStr [] sub = (sub = [])"
| "includesStr (c # cs) sub = (startsWith (c # cs) sub \<or> includesStr cs sub)"

text \<open>The white space that \<open>trim\<close> removes and \<open>\s\<close> matches, among 8-bit characters:
  tab, line feed, vertical tab, form feed, carriage return, space and no-break space.\<close>

definition isWhitespace :: "char \<Rightarrow> bool" where
  "isWhitespace c =
     (c \<in> set [CHR 0x09, CHR 0x0A, CHR 0x0B, CHR 0x0C, CHR 0x0D, CHR 0x20, CHR 0xA0])"




definition trim :: "string \<Rightarrow> string" where
  "trim s = rev (dropWhile isWhitespace (rev (dropWhile isWhitespace s)))"

text \<open>\<open>split sep s\<close> is \<open>s.split(sep)\<close> for a one-character separator: the pieces between
  the separators, empty pieces included.\<close>

fun split :: "char \<Rightarrow> string \<Rightarrow> string list" where
  "split sep [] = [[]]"
| "split sep (c # cs) =
     (if c = sep then [] # split sep cs
      else (case split sep cs of
              [] \<Rightarrow> [[c]]
            | p # ps \<Rightarrow> (c # p) # ps))"



section \<open>Spaces\<close>

text \<open>
  A space of the storage client, as far as this code reads it: the identifier returned by
  \<open>did()\<close>, the optional \<open>name\<close>, and the optional \<open>access\<close> with its \<open>type\<close>.
\<close>

datatype SpaceAccessType = Public | Private

record Space =
  did :: string
  name :: "string option"
  access :: "SpaceAccessType option"


section \<open>Selection (useSpaceSelection, SpacePickerProvider)\<close>

text \<open>The updater of \<open>selectSpace\<close>: from the previous selection to the next one.\<close>

definition selectSpace :: "Space \<Rightarrow> Space list \<Rightarrow> Space list" where
  "selectSpace space prev =
     (if list_ex (\<lambda>s. did s = did space) prev
      then filter (\<lambda>s. did s \<noteq> did space) prev
      else prev @ [space])"

definition selectAllSpaces :: "Space list \<Rightarrow> Space list" where
  "selectAllSpaces spaces = spaces"

definition clearSelection :: "Space list" where
  "clearSelection = []"

definition isSpaceSelected :: "Space list \<Rightarrow> Space \<Rightarrow> bool" where
  "isSpaceSelected selectedSpaces space = list_ex (\<lambda>s. did s = did space) selectedSpaces"

definition selectedCount :: "Space list \<Rightarrow> nat" where
  "selectedCount selectedSpaces = length selectedSpaces"

definition allSelected :: "Space list \<Rightarrow> Space list \<Rightarrow> bool" where
  "allSelected spaces selectedSpaces =
     (selectedCount selectedSpaces = length spaces \<and> length spaces > 0)"

definition someSelected :: "Space list \<Rightarrow> Space list \<Rightarrow> bool" where
  "someSelected spaces selectedSpaces =
     (selectedCount selectedSpaces > 0 \<and> selectedCount selectedSpaces < length spaces)"

text \<open>
  The state of the picker that the selection operations touch: the selected spaces, and
  the spaces handed to the caller's \<open>onSpaceSelect\<close> callback so far.
\<close>

record PickerSelection =
  selectedSpaces :: "Space list"
  onSpaceSelectCalls :: "Space list"

definition initialSelection :: PickerSelection where
  "initialSelection = \<lparr>selectedSpaces = [], onSpaceSelectCalls = []\<rparr>"

text \<open>
  The operations the provider puts into its context value: \<open>toggleSpaceSelection\<close>,
  \<open>selectAllSpaces\<close>, \<open>clearSpaceSelection\<close>, \<open>setSelectedSpaces\<close>, and
  \<open>onSpaceSelect\<close>, which is \<open>handleSpaceSelect\<close>.
\<close>

datatype SelectionOp =
    ToggleSpaceSelection Space
  | SelectAllSpaces
  | ClearSpaceSelection
  | SetSelectedSpaces "Space list"
  | HandleSpaceSelect Space

definition toggleSpaceSelection :: "Space \<Rightarrow> PickerSelection \<Rightarrow> PickerSelection" where
  "toggleSpaceSelection space st = st\<lparr>selectedSpaces := selectSpace space (selectedSpaces st)\<rparr>"

definition handleSpaceSelect :: "bool \<Rightarrow> Space \<Rightarrow> PickerSelection \<Rightarrow> PickerSelection" where
  "handleSpaceSelect allowMultiSelect space st =
     (if allowMultiSelect then toggleSpaceSelection space st
      else st\<lparr>onSpaceSelectCalls := onSpaceSelectCalls st @ [space]\<rparr>)"

definition setSelectedSpaces :: "Space list \<Rightarrow> Space list \<Rightarrow> PickerSelection \<Rightarrow> PickerSelection" where
  "setSelectedSpaces filteredSpaces spaces st =
     (if length spaces = 0 then st\<lparr>selectedSpaces := clearSelection\<rparr>
      else if length spaces = length filteredSpaces
      then st\<lparr>selectedSpaces := selectAllSpaces filteredSpaces\<rparr>
      else st)"

text \<open>One operation, in a provider with the given \<open>allowMultiSelect\<close> and filtered spaces.\<close>

fun applyOp :: "bool \<Rightarrow> Space list \<Rightarrow> PickerSelection \<Rightarrow> SelectionOp \<Rightarrow> PickerSelection" where
  "applyOp allowMultiSelect filteredSpaces st (ToggleSpaceSelection space) =
     toggleSpaceSelection space st"
| "applyOp allowMultiSelect filteredSpaces st SelectAllSpaces =
     st\<lparr>selectedSpaces := selectAllSpaces filteredSpaces\<rparr>"
| "applyOp allowMultiSelect filteredSpaces st ClearSpaceSelection =
     st\<lparr>selectedSpaces := clearSelection\<rparr>"
| "applyOp allowMultiSelect filteredSpaces st (SetSelectedSpaces spaces) =
     setSelectedSpaces filteredSpaces spaces st"
| "applyOp allowMultiSelect filteredSpaces st (HandleSpaceSelect space) =
     handleSpaceSelect allowMultiSelect space st"

definition applyOps :: "bool \<Rightarrow> Space list \<Rightarrow> SelectionOp list \<Rightarrow> PickerSelection \<Rightarrow> PickerSelection" where
  "applyOps allowMultiSelect filteredSpaces ops st =
     foldl (applyOp allowMultiSelect filteredSpaces) st ops"

text \<open>An operation that is an item selection or a clearing of the selection.\<close>

fun selectOrClear :: "SelectionOp \<Rightarrow> bool" where
  "selectOrClear (HandleSpaceSelect space) = True"
| "selectOrClear ClearSpaceSelection = True"
| "selectOrClear other = False"

text \<open>Two spaces used in the examples.\<close>

definition spaceA :: Space where
  "spaceA = \<lparr>did = ''did:key:a'', name = Some ''Apple'', access = Some Public\<rparr>"

definition spaceB :: Space where
  "spaceB = \<lparr>did = ''did:key:b'', name = Some ''Zebra'', access = Some Private\<rparr>"


section \<open>Filtering and sorting (filterSpaces, useSpaceSearch)\<close>

datatype AccessTypeFilter = FilterPublic | FilterPrivate | FilterAll

datatype SortBy = SortName | SortCreated | SortUsage

datatype SortOrder = Asc | Desc

text \<open>\<open>SpaceFilterOptions\<close>: every field is optional.\<close>

record SpaceFilterOptions =
  query :: "string option"
  accessType :: "AccessTypeFilter option"
  sortBy :: "SortBy option"
  sortOrder :: "SortOrder option"

text \<open>
  The \<open>filters\<close> state of \<open>useSpaceSearch\<close>. It starts with every field set, and
  \<open>updateFilters\<close> merges a partial object into it, so a field can come to hold
  \<open>undefined\<close>.
\<close>

record SearchFilters =
  searchAccessType :: "AccessTypeFilter option"
  searchSortBy :: "SortBy option"
  searchSortOrder :: "SortOrder option"

text \<open>\<open>shortenDID\<close>; \<open>slice(-len)\<close> with \<open>len = 0\<close> is the whole string.\<close>

definition shortenDID :: "string \<Rightarrow> nat \<Rightarrow> string" where
  "shortenDID d len =
     (if length d \<le> len * 2 + 3 then d
      else take len d @ ''...'' @ (if len = 0 then d else drop (length d - len) d))"

text \<open>\<open>n || d\<close> for an optional string \<open>n\<close>: \<open>d\<close> when \<open>n\<close> is undefined or empty.\<close>

definition orElse :: "string option \<Rightarrow> string \<Rightarrow> string" where
  "orElse n d = (case n of None \<Rightarrow> d | Some s \<Rightarrow> if s = [] then d else s)"

text \<open>The predicate of the search-query filter; \<open>q\<close> is the lower-cased query.\<close>

definition matchesQuery :: "string \<Rightarrow> Space \<Rightarrow> bool" where
  "matchesQuery q space =
     ((case name space of None \<Rightarrow> False | Some n \<Rightarrow> includesStr (toLowerCase n) q) \<or>
      includesStr (toLowerCase (did space)) q)"

text \<open>The predicate of the access filter: \<open>space.access?.type === accessType\<close>.\<close>

definition hasAccessType :: "AccessTypeFilter \<Rightarrow> Space \<Rightarrow> bool" where
  "hasAccessType t space =
     (case access space of
        None \<Rightarrow> False
      | Some Public \<Rightarrow> t = FilterPublic
      | Some Private \<Rightarrow> t = FilterPrivate)"

text \<open>
  \<open>Array.prototype.sort\<close> with a comparator: a stable sort, here by insertion. An element
  goes before the first element of the sorted rest that it does not compare greater than,
  so elements that compare equal keep their order. The comparator returns a number:
  negative, zero or positive.
\<close>

fun insertSorted :: "('a \<Rightarrow> 'a \<Rightarrow> int) \<Rightarrow> 'a \<Rightarrow> 'a list \<Rightarrow> 'a list" where
  "insertSorted cmp x [] = [x]"
| "insertSorted cmp x (y # ys) =
     (if cmp x y \<le> 0 then x # y # ys else y # insertSorted cmp x ys)"

definition arraySort :: "('a \<Rightarrow> 'a \<Rightarrow> int) \<Rightarrow> 'a list \<Rightarrow> 'a list" where
  "arraySort cmp xs = foldr (insertSorted cmp) xs []"

text \<open>
  The comparator of \<open>filterSpaces\<close>. \<open>localeCompare\<close> is the host's locale-aware string
  comparison, a parameter of the model.
\<close>

definition filterSpacesCompare ::
  "(string \<Rightarrow> string \<Rightarrow> int) \<Rightarrow> SpaceFilterOptions \<Rightarrow> Space \<Rightarrow> Space \<Rightarrow> int" where
  "filterSpacesCompare localeCompare filters a b =
     (let comparison =
        (case sortBy filters of
           Some SortName \<Rightarrow>
             (let nameA = toLowerCase (orElse (name a) (shortenDID (did a) 8));
                  nameB = toLowerCase (orElse (name b) (shortenDID (did b) 8))
              in localeCompare nameA nameB)
         | Some SortCreated \<Rightarrow> 0
         | Some SortUsage \<Rightarrow> 0
         | None \<Rightarrow> 0)
      in if sortOrder filters = Some Desc then - comparison else comparison)"

definition filterSpaces ::
  "(string \<Rightarrow> string \<Rightarrow> int) \<Rightarrow> Space list \<Rightarrow> SpaceFilterOptions \<Rightarrow> Space list" where
  "filterSpaces localeCompare spaces filters =
     (let filtered = spaces;
          filtered =
            (case query filters of
               None \<Rightarrow> filtered
             | Some q \<Rightarrow>
                 if q \<noteq> [] then filter (matchesQuery (toLowerCase q)) filtered else filtered);
          filtered =
            (case accessType filters of
               None \<Rightarrow> filtered
             | Some t \<Rightarrow>
                 if t \<noteq> FilterAll then filter (hasAccessType t) filtered else filtered)
      in case sortBy filters of
           None \<Rightarrow> filtered
         | Some sb \<Rightarrow> arraySort (filterSpacesCompare localeCompare filters) filtered)"

text \<open>
  The test of the access filter in \<open>useSpaceSearch\<close>,
  \<open>space.access?.type === filters.accessType\<close>, for any value of the state's field:
  \<open>undefined\<close> is equal to \<open>undefined\<close>.
\<close>

definition accessTypeEquals :: "AccessTypeFilter option \<Rightarrow> Space \<Rightarrow> bool" where
  "accessTypeEquals t space =
     (case access space of
        None \<Rightarrow> t = None
      | Some Public \<Rightarrow> t = Some FilterPublic
      | Some Private \<Rightarrow> t = Some FilterPrivate)"

text \<open>The comparator and the memoised list \<open>filteredSpaces\<close> of \<open>useSpaceSearch\<close>.\<close>

definition useSpaceSearchCompare ::
  "(string \<Rightarrow> string \<Rightarrow> int) \<Rightarrow> SearchFilters \<Rightarrow> Space \<Rightarrow> Space \<Rightarrow> int" where
  "useSpaceSearchCompare localeCompare filters a b =
     (let comparison =
        (case searchSortBy filters of
           Some SortName \<Rightarrow>
             (let nameA = toLowerCase (orElse (name a) (did a));
                  nameB = toLowerCase (orElse (name b) (did b))
              in localeCompare nameA nameB)
         | Some SortCreated \<Rightarrow> 0
         | Some SortUsage \<Rightarrow> 0
         | None \<Rightarrow> 0)
      in if searchSortOrder filters = Some Desc then - comparison else comparison)"

definition useSpaceSearch ::
  "(string \<Rightarrow> string \<Rightarrow> int) \<Rightarrow> Space list \<Rightarrow> string \<Rightarrow> SearchFilters \<Rightarrow> Space list" where
  "useSpaceSearch localeCompare spaces searchQuery filters =
     (let filtered = spaces;
          filtered =
            (if searchQuery \<noteq> []
             then filter (matchesQuery (toLowerCase searchQuery)) filtered else filtered);
          filtered =
            (if searchAccessType filters \<noteq> Some FilterAll
             then filter (accessTypeEquals (searchAccessType filters)) filtered else filtered)
      in arraySort (useSpaceSearchCompare localeCompare filters) filtered)"

text \<open>The options that hand the state of \<open>useSpaceSearch\<close> to \<open>filterSpaces\<close>.\<close>

definition optionsOf :: "string \<Rightarrow> SearchFilters \<Rightarrow> SpaceFilterOptions" where
  "optionsOf searchQuery filters =
     \<lparr>query = Some searchQuery,
      accessType = searchAccessType filters,
      sortBy = searchSortBy filters,
      sortOrder = searchSortOrder filters\<rparr>"

text \<open>
  A comparison by character codes, for evaluating on concrete strings: negative, zero or
  positive as the first string is before, equal to or after the second. It agrees in sign
  with \<open>localeCompare\<close> on equal strings and on strings that first differ in two
  lower-case ASCII letters.
\<close>

fun codeUnitCompare :: "string \<Rightarrow> string \<Rightarrow> int" where
  "codeUnitCompare [] [] = 0"
| "codeUnitCompare [] (y # ys) = - 1"
| "codeUnitCompare (x # xs) [] = 1"
| "codeUnitCompare (x # xs) (y # ys) =
     (if (of_char x :: nat) < of_char y then - 1
      else if (of_char y :: nat) < of_char x then 1
      else codeUnitCompare xs ys)"

subsection \<open>Arrays in a store\<close>

text \<open>
  Arrays are objects: a variable holds a reference, and \<open>sort\<close> changes the array it is
  called on. The store maps references to the arrays' contents; \<open>nextRef\<close> is the next
  unused reference.
\<close>

record ArrayStore =
  arrays :: "nat \<rightharpoonup> Space list"
  nextRef :: nat

definition wellFormedStore :: "ArrayStore \<Rightarrow> bool" where
  "wellFormedStore st = (\<forall>r. arrays st r \<noteq> None \<longrightarrow> r < nextRef st)"

definition newArray :: "Space list \<Rightarrow> ArrayStore \<Rightarrow> nat \<times> ArrayStore" where
  "newArray xs st =
     (nextRef st, st\<lparr>arrays := (arrays st)(nextRef st \<mapsto> xs), nextRef := Suc (nextRef st)\<rparr>)"

definition readArray :: "ArrayStore \<Rightarrow> nat \<Rightarrow> Space list" where
  "readArray st r = (case arrays st r of None \<Rightarrow> [] | Some xs \<Rightarrow> xs)"

text \<open>\<open>filter\<close> builds a new array; the array it is called on is only read.\<close>

definition filterArray :: "(Space \<Rightarrow> bool) \<Rightarrow> nat \<Rightarrow> ArrayStore \<Rightarrow> nat \<times> ArrayStore" where
  "filterArray keep r st = newArray (filter keep (readArray st r)) st"

text \<open>\<open>sort\<close> writes the sorted contents into the array it is called on.\<close>

definition sortArray :: "(Space \<Rightarrow> Space \<Rightarrow> int) \<Rightarrow> nat \<Rightarrow> ArrayStore \<Rightarrow> ArrayStore" where
  "sortArray cmp r st = st\<lparr>arrays := (arrays st)(r \<mapsto> arraySort cmp (readArray st r))\<rparr>"

text \<open>
  \<open>filterSpaces\<close> on references: \<open>spaces\<close> refers to the caller's array. The result is the
  returned reference and the store after the call; \<open>None\<close> when \<open>spaces\<close> refers to no
  array.
\<close>

definition filterSpacesInStore ::
  "(string \<Rightarrow> string \<Rightarrow> int) \<Rightarrow> nat \<Rightarrow> SpaceFilterOptions \<Rightarrow> ArrayStore \<Rightarrow>
   (nat \<times> ArrayStore) option" where
  "filterSpacesInStore localeCompare spaces filters st =
     (case arrays st spaces of
        None \<Rightarrow> None
      | Some xs \<Rightarrow>
          (let (filtered, st1) = newArray xs st;
               (filtered, st2) =
                 (case query filters of
                    None \<Rightarrow> (filtered, st1)
                  | Some q \<Rightarrow>
                      if q \<noteq> [] then filterArray (matchesQuery (toLowerCase q)) filtered st1
                      else (filtered, st1));
               (filtered, st3) =
                 (case accessType filters of
                    None \<Rightarrow> (filtered, st2)
                  | Some t \<Rightarrow>
                      if t \<noteq> FilterAll then filterArray (hasAccessType t) filtered st2
                      else (filtered, st2))
           in case sortBy filters of
                None \<Rightarrow> Some (filtered, st3)
              | Some sb \<Rightarrow>
                  Some (filtered,
                        sortArray (filterSpacesCompare localeCompare filters) filtered st3)))"


subsection \<open>Inputs used in the examples\<close>

text \<open>Two spaces without a name, with identifiers of 20 characters.\<close>

definition longA :: Space where
  "longA = \<lparr>did = ''did:key:aaaa12345678'', name = None, access = None\<rparr>"

definition longB :: Space where
  "longB = \<lparr>did = ''did:key:bbbb12345678'', name = None, access = None\<rparr>"

definition byNameAsc :: SearchFilters where
  "byNameAsc =
     \<lparr>searchAccessType = Some FilterAll, searchSortBy = Some SortName,
      searchSortOrder = Some Asc\<rparr>"

text \<open>The state after \<open>updateFilters({ accessType: undefined })\<close>.\<close>

definition accessUnset :: SearchFilters where
  "accessUnset =
     \<lparr>searchAccessType = None, searchSortBy = Some SortName, searchSortOrder = Some Asc\<rparr>"

text \<open>A store with one array, at reference 0.\<close>

definition storeBA :: ArrayStore where
  "storeBA = \<lparr>arrays = [0 \<mapsto> [spaceB, spaceA]], nextRef = 1\<rparr>"


section \<open>Regular expressions\<close>








section \<open>Validation (validationHelpers, spaceHelpers)\<close>

type_synonym ValidationErrors = "string \<rightharpoonup> string"






















text \<open>The reserved names of \<open>validatePath\<close>: the two dot names, then the device names.\<close>

definition deviceNames :: "string list" where
  "deviceNames =
     [''CON'', ''PRN'', ''AUX'', ''NUL'',
      ''COM1'', ''COM2'', ''COM3'', ''COM4'', ''COM5'', ''COM6'', ''COM7'', ''COM8'', ''COM9'',
      ''LPT1'', ''LPT2'', ''LPT3'', ''LPT4'', ''LPT5'', ''LPT6'', ''LPT7'', ''LPT8'', ''LPT9'']"

definition reservedNames :: "string list" where
  "reservedNames = [''.'', ''..''] @ deviceNames"

definition pathParts :: "string \<Rightarrow> string list" where
  "pathParts path = filter (\<lambda>part. part \<noteq> []) (split (CHR ''/'') path)"

text \<open>The loop over the parts: it stops at the first reserved one.\<close>

fun firstReserved :: "string list \<Rightarrow> string option" where
  "firstReserved [] = None"
| "firstReserved (part # parts) =
     (if toUpperCase part \<in> set (map codeUnits reservedNames) then Some part
      else firstReserved parts)"

definition validatePath :: "string \<Rightarrow> ValidationErrors" where
  "validatePath path =
     (if path = [] \<or> length (trim path) = 0 then [''path'' \<mapsto> ''Path is required'']
      else
        (let errors = Map.empty;
             errors =
               (if includesStr path ''..'' \<or> includesStr path ''~''
                then errors(''path'' \<mapsto> ''Invalid path: path traversal not allowed'')
                else errors);
             errors =
               (case firstReserved (pathParts path) of
                  None \<Rightarrow> errors
                | Some part \<Rightarrow>
                    errors(''path'' \<mapsto>
                      ''Invalid path: '' @ [CHR 0x22] @ part @ [CHR 0x22] @ '' is a reserved name''));
             errors =
               (if length path > 260
                then errors(''path'' \<mapsto> ''Path is too long (maximum 260 characters)'')
                else errors)
         in errors))"




subsection \<open>Inputs used in the examples\<close>






section \<open>Retrying (useRetry)\<close>
















section \<open>Debounce and throttle (spaceHelpers)\<close>





















section \<open>Facts about the selection\<close>

lemma selectSpace_unselected:
  "\<not> isSpaceSelected prev space \<Longrightarrow> selectSpace space prev = prev @ [space]"
  by (simp add: selectSpace_def isSpaceSelected_def)

lemma selectSpace_selected:
  "isSpaceSelected prev space \<Longrightarrow>
   selectSpace space prev = filter (\<lambda>s. did s \<noteq> did space) prev"
  by (simp add: selectSpace_def isSpaceSelected_def)

lemma filter_other_dids:
  "\<not> isSpaceSelected prev space \<Longrightarrow> filter (\<lambda>s. did s \<noteq> did space) prev = prev"
  by (induction prev) (auto simp: isSpaceSelected_def)

lemma not_selected_after_removal:
  "\<not> isSpaceSelected (filter (\<lambda>s. did s \<noteq> did space) prev) space"
  by (induction prev) (auto simp: isSpaceSelected_def)

lemma applyOps_single_select_or_clear:
  "\<forall>op \<in> set ops. selectOrClear op \<Longrightarrow> selectedSpaces st = [] \<Longrightarrow>
   selectedSpaces (applyOps False filteredSpaces ops st) = []"
proof (induction ops arbitrary: st)
  case Nil
  then show ?case by (simp add: applyOps_def)
next
  case (Cons op ops)
  from Cons.prems(1) have head: "selectOrClear op" by simp
  have "selectedSpaces (applyOp False filteredSpaces st op) = []"
    using head Cons.prems(2)
    by (cases op) (simp_all add: handleSpaceSelect_def clearSelection_def)
  moreover from Cons.prems(1) have "\<forall>op \<in> set ops. selectOrClear op" by simp
  ultimately have "selectedSpaces
      (applyOps False filteredSpaces ops (applyOp False filteredSpaces st op)) = []"
    by (rule Cons.IH[rotated])
  then show ?case by (simp add: applyOps_def)
qed

lemma dids_selectSpace_twice:
  "did ` set (selectSpace space (selectSpace space prev)) = did ` set prev"
proof (cases "isSpaceSelected prev space")
  case True
  let ?rest = "filter (\<lambda>s. did s \<noteq> did space) prev"
  have "selectSpace space (selectSpace space prev) = ?rest @ [space]"
    using True not_selected_after_removal[of space prev]
    by (simp add: selectSpace_selected selectSpace_unselected)
  moreover have "did space \<in> did ` set prev"
  proof -
    from True obtain s where "s \<in> set prev" and "did s = did space"
      by (auto simp: isSpaceSelected_def list_ex_iff)
    then show ?thesis by (metis imageI)
  qed
  ultimately show ?thesis by auto
next
  case False
  have "\<not> isSpaceSelected (prev @ [space]) space \<Longrightarrow> False"
    by (simp add: isSpaceSelected_def)
  then have "isSpaceSelected (prev @ [space]) space" by blast
  then have "selectSpace space (selectSpace space prev) = prev"
    using False by (simp add: selectSpace_unselected selectSpace_selected filter_other_dids)
  then show ?thesis by simp
qed

lemma selectSpace_twice_unselected:
  "\<not> isSpaceSelected prev space \<Longrightarrow> selectSpace space (selectSpace space prev) = prev"
proof -
  assume unsel: "\<not> isSpaceSelected prev space"
  have "isSpaceSelected (prev @ [space]) space"
    by (simp add: isSpaceSelected_def)
  then show ?thesis
    using unsel by (simp add: selectSpace_unselected selectSpace_selected filter_other_dids)
qed


section \<open>Claims about the selection\<close>

text \<open>
  C1 (as stated): in single-select mode every sequence of toggle, selectAll and clear
  operations from the empty selection keeps at most one space selected. The code's toggle
  does not read \<open>allowMultiSelect\<close>: with \<open>allowMultiSelect = False\<close>, toggling space A
  and then space B leaves both selected.
\<close>

theorem C1_single_select_two_toggles_counterexample:
  "\<not> length (selectedSpaces
        (applyOps False [spaceA, spaceB]
           [ToggleSpaceSelection spaceA, ToggleSpaceSelection spaceB] initialSelection)) \<le> 1"
  by (simp add: applyOps_def toggleSpaceSelection_def selectSpace_def initialSelection_def
      spaceA_def spaceB_def)

text \<open>
  C1 (amended): with \<open>allowMultiSelect = False\<close>, \<open>handleSpaceSelect\<close> hands the space to
  \<open>onSpaceSelect\<close> and leaves the selection as it is, so every sequence of item selections
  and clearings from the empty selection keeps the selection empty (at most one space
  selected). The toggle is the same in both modes: toggling a space whose identifier is
  not selected appends it to the selection, one longer than before; toggling a selected
  identifier removes it, and toggling the only selected space clears the selection.
\<close>

theorem C1_single_select_selection:
  "((\<forall>op \<in> set ops. selectOrClear op) \<longrightarrow>
      selectedSpaces (applyOps False filteredSpaces ops initialSelection) = [] \<and>
      length (selectedSpaces (applyOps False filteredSpaces ops initialSelection)) \<le> 1) \<and>
   (\<not> isSpaceSelected prev space \<longrightarrow>
      selectSpace space prev = prev @ [space] \<and>
      length (selectSpace space prev) = Suc (length prev)) \<and>
   (isSpaceSelected prev space \<longrightarrow> \<not> isSpaceSelected (selectSpace space prev) space) \<and>
   selectSpace space [space] = []"
proof -
  have "(\<forall>op \<in> set ops. selectOrClear op) \<longrightarrow>
     selectedSpaces (applyOps False filteredSpaces ops initialSelection) = [] \<and>
     length (selectedSpaces (applyOps False filteredSpaces ops initialSelection)) \<le> 1"
    using applyOps_single_select_or_clear[of ops initialSelection filteredSpaces]
    by (simp add: initialSelection_def)
  moreover have "\<not> isSpaceSelected prev space \<longrightarrow>
     selectSpace space prev = prev @ [space] \<and>
     length (selectSpace space prev) = Suc (length prev)"
    by (simp add: selectSpace_unselected)
  moreover have "isSpaceSelected prev space \<longrightarrow>
     \<not> isSpaceSelected (selectSpace space prev) space"
    using not_selected_after_removal[of space prev] by (simp add: selectSpace_selected)
  moreover have "selectSpace space [space] = []"
    by (simp add: selectSpace_def)
  ultimately show ?thesis by blast
qed

theorem C1_single_select_selection_witness:
  "selectedSpaces (applyOps False [spaceA, spaceB]
      [HandleSpaceSelect spaceA, HandleSpaceSelect spaceB, ClearSpaceSelection]
      initialSelection) = [] \<and>
   selectSpace spaceB [spaceA] = [spaceA, spaceB] \<and>
   isSpaceSelected [spaceA, spaceB] spaceA \<and>
   \<not> isSpaceSelected (selectSpace spaceA [spaceA, spaceB]) spaceA"
proof -
  have ops: "\<forall>op \<in> set [HandleSpaceSelect spaceA, HandleSpaceSelect spaceB, ClearSpaceSelection].
      selectOrClear op"
    by simp
  have unsel: "\<not> isSpaceSelected [spaceA] spaceB"
    by (simp add: isSpaceSelected_def spaceA_def spaceB_def)
  have sel: "isSpaceSelected [spaceA, spaceB] spaceA"
    by (simp add: isSpaceSelected_def)
  show ?thesis
    using C1_single_select_selection[of
        "[HandleSpaceSelect spaceA, HandleSpaceSelect spaceB, ClearSpaceSelection]"
        "[spaceA, spaceB]" "[spaceA]" spaceB]
      C1_single_select_selection[of "[]" "[]" "[spaceA, spaceB]" spaceA]
      ops unsel sel
    by auto
qed

text \<open>
  C3 (as stated): toggling the same identifier twice gives back the same selected elements
  in the same order. When the identifier is selected and is not the last element, the
  second toggle appends it at the end: from the selection A, B, toggling A twice gives
  B, A.
\<close>

theorem C3_toggle_twice_reorders_counterexample:
  "selectSpace spaceA (selectSpace spaceA [spaceA, spaceB]) = [spaceB, spaceA] \<and>
   selectSpace spaceA (selectSpace spaceA [spaceA, spaceB]) \<noteq> [spaceA, spaceB]"
  by (simp add: selectSpace_def spaceA_def spaceB_def)

text \<open>
  C3 (amended): for every selection and every space, toggling the space twice yields a
  selection with the same set of selected identifiers. When the identifier was not
  selected at the start, the result is the original list itself, same elements in the same
  order. When it was selected, the first toggle removes every element with that identifier
  and the second appends the toggled space at the end: the result is the original list
  without the elements of that identifier, followed by the toggled space.
\<close>

theorem C3_toggle_twice:
  "did ` set (selectSpace space (selectSpace space prev)) = did ` set prev \<and>
   (\<not> isSpaceSelected prev space \<longrightarrow> selectSpace space (selectSpace space prev) = prev) \<and>
   (isSpaceSelected prev space \<longrightarrow>
      selectSpace space prev = filter (\<lambda>s. did s \<noteq> did space) prev \<and>
      selectSpace space (selectSpace space prev) =
        filter (\<lambda>s. did s \<noteq> did space) prev @ [space])"
proof -
  have "isSpaceSelected prev space \<longrightarrow>
      selectSpace space prev = filter (\<lambda>s. did s \<noteq> did space) prev \<and>
      selectSpace space (selectSpace space prev) =
        filter (\<lambda>s. did s \<noteq> did space) prev @ [space]"
    using not_selected_after_removal[of space prev]
    by (simp add: selectSpace_selected selectSpace_unselected)
  then show ?thesis
    using dids_selectSpace_twice[of space prev] selectSpace_twice_unselected[of prev space]
    by blast
qed

theorem C3_toggle_twice_witness:
  "did ` set (selectSpace spaceB (selectSpace spaceB [spaceA])) = did ` set [spaceA] \<and>
   \<not> isSpaceSelected [spaceA] spaceB \<and>
   selectSpace spaceB (selectSpace spaceB [spaceA]) = [spaceA] \<and>
   isSpaceSelected [spaceA, spaceB] spaceA \<and>
   selectSpace spaceA [spaceA, spaceB] = [spaceB] \<and>
   selectSpace spaceA (selectSpace spaceA [spaceA, spaceB]) = [spaceB, spaceA]"
proof -
  have unsel: "\<not> isSpaceSelected [spaceA] spaceB"
    by (simp add: isSpaceSelected_def spaceA_def spaceB_def)
  have sel: "isSpaceSelected [spaceA, spaceB] spaceA"
    by (simp add: isSpaceSelected_def)
  have rest: "filter (\<lambda>s. did s \<noteq> did spaceA) [spaceA, spaceB] = [spaceB]"
    by (simp add: spaceA_def spaceB_def)
  from C3_toggle_twice[of spaceA "[spaceA, spaceB]"] sel
  have "selectSpace spaceA [spaceA, spaceB] =
          filter (\<lambda>s. did s \<noteq> did spaceA) [spaceA, spaceB] \<and>
        selectSpace spaceA (selectSpace spaceA [spaceA, spaceB]) =
          filter (\<lambda>s. did s \<noteq> did spaceA) [spaceA, spaceB] @ [spaceA]"
    by blast
  then have selected: "selectSpace spaceA [spaceA, spaceB] = [spaceB] \<and>
      selectSpace spaceA (selectSpace spaceA [spaceA, spaceB]) = [spaceB, spaceA]"
    using rest by (metis append_Cons append_Nil)
  from C3_toggle_twice[of spaceB "[spaceA]"] unsel
  have "did ` set (selectSpace spaceB (selectSpace spaceB [spaceA])) = did ` set [spaceA] \<and>
      selectSpace spaceB (selectSpace spaceB [spaceA]) = [spaceA]"
    by blast
  with selected unsel sel show ?thesis by blast
qed


section \<open>Facts about sorting and filtering\<close>

lemma mset_insertSorted: "mset (insertSorted cmp x xs) = add_mset x (mset xs)"
  by (induction xs) simp_all

lemma mset_arraySort: "mset (arraySort cmp xs) = mset xs"
  by (induction xs) (simp_all add: arraySort_def mset_insertSorted)

lemma set_arraySort: "set (arraySort cmp xs) = set xs"
  using mset_arraySort[of cmp xs] by (metis set_mset_mset)

lemma insertSorted_cong:
  "\<forall>y \<in> set ys. (c1 x y \<le> 0) = (c2 x y \<le> 0) \<Longrightarrow> insertSorted c1 x ys = insertSorted c2 x ys"
  by (induction ys) simp_all

lemma arraySort_cong:
  "\<forall>x \<in> set xs. \<forall>y \<in> set xs. (c1 x y \<le> 0) = (c2 x y \<le> 0) \<Longrightarrow>
   arraySort c1 xs = arraySort c2 xs"
proof (induction xs)
  case Nil
  then show ?case by (simp add: arraySort_def)
next
  case (Cons x xs)
  have rest: "arraySort c1 xs = arraySort c2 xs"
    using Cons by simp
  have "\<forall>y \<in> set (arraySort c2 xs). (c1 x y \<le> 0) = (c2 x y \<le> 0)"
    using Cons.prems by (simp add: set_arraySort)
  then have "insertSorted c1 x (arraySort c2 xs) = insertSorted c2 x (arraySort c2 xs)"
    by (rule insertSorted_cong)
  with rest show ?case by (simp add: arraySort_def)
qed

lemma insertSorted_all_equal:
  "\<forall>y \<in> set ys. cmp x y \<le> 0 \<Longrightarrow> insertSorted cmp x ys = x # ys"
  by (cases ys) simp_all

lemma arraySort_no_order: "\<forall>x y. cmp x y = 0 \<Longrightarrow> arraySort cmp xs = xs"
  by (induction xs) (simp_all add: arraySort_def insertSorted_all_equal)


section \<open>Facts about arrays in the store\<close>

lemma newArray_extends:
  assumes "wellFormedStore st" and "newArray xs st = (r, st')"
  shows "r = nextRef st" and "arrays st' r = Some xs" and "nextRef st' = Suc (nextRef st)"
    and "wellFormedStore st'" and "\<forall>q. q \<noteq> r \<longrightarrow> arrays st' q = arrays st q"
  using assms by (auto simp: newArray_def wellFormedStore_def less_Suc_eq)

lemma filterArray_extends:
  assumes "wellFormedStore st" and "filterArray keep a st = (r, st')"
  shows "r = nextRef st" and "arrays st' r = Some (filter keep (readArray st a))"
    and "nextRef st' = Suc (nextRef st)"
    and "wellFormedStore st'" and "\<forall>q. q \<noteq> r \<longrightarrow> arrays st' q = arrays st q"
  using assms newArray_extends[of st "filter keep (readArray st a)" r st']
  by (simp_all add: filterArray_def)

lemma sortArray_arrays:
  "arrays st r = Some ys \<Longrightarrow>
   arrays (sortArray cmp r st) r = Some (arraySort cmp ys) \<and>
   (\<forall>q. q \<noteq> r \<longrightarrow> arrays (sortArray cmp r st) q = arrays st q)"
  by (simp add: sortArray_def readArray_def)


section \<open>Claims about filtering and sorting\<close>

text \<open>
  C2: with \<open>accessType = all\<close> (or left out) and an empty query (or none),
  \<open>filterSpaces\<close> returns a permutation of its input: the same multiset of space records,
  whatever the sort key, the sort order and the comparison of the locale. This holds for
  every list, the empty one included.
\<close>

theorem C2_filterSpaces_all_is_permutation:
  assumes "query filters \<in> {None, Some []}"
    and "accessType filters \<in> {None, Some FilterAll}"
  shows "mset (filterSpaces localeCompare spaces filters) = mset spaces"
  using assms by (auto simp: filterSpaces_def mset_arraySort split: option.splits)

theorem C2_filterSpaces_all_is_permutation_witness:
  "query (optionsOf [] byNameAsc) \<in> {None, Some []} \<and>
   accessType (optionsOf [] byNameAsc) \<in> {None, Some FilterAll} \<and>
   [spaceB, spaceA] \<noteq> [] \<and>
   filterSpaces codeUnitCompare [spaceB, spaceA] (optionsOf [] byNameAsc) = [spaceA, spaceB] \<and>
   mset (filterSpaces codeUnitCompare [spaceB, spaceA] (optionsOf [] byNameAsc)) =
     mset [spaceB, spaceA]"
proof -
  have q: "query (optionsOf [] byNameAsc) \<in> {None, Some []}"
    by (simp add: optionsOf_def)
  have t: "accessType (optionsOf [] byNameAsc) \<in> {None, Some FilterAll}"
    by (simp add: optionsOf_def byNameAsc_def)
  have v: "filterSpaces codeUnitCompare [spaceB, spaceA] (optionsOf [] byNameAsc) =
      [spaceA, spaceB]"
    by code_simp
  show ?thesis
    using q t v C2_filterSpaces_all_is_permutation[OF q t, of codeUnitCompare "[spaceB, spaceA]"]
    by simp
qed

text \<open>
  C8: \<open>filterSpaces\<close> does not change its input. Called on a reference to an array of the
  store, it returns a reference that is not the input's and that referred to no array
  before the call (a new array); after the call the input array, and every other array
  that existed before, holds what it held before, elements and order; and the returned
  array holds the value \<open>filterSpaces\<close> computes from the input's contents.
\<close>

theorem C8_filterSpaces_leaves_input_unchanged:
  assumes wf: "wellFormedStore st" and inp: "arrays st spaces = Some xs"
  shows "\<exists>result st'.
           filterSpacesInStore localeCompare spaces filters st = Some (result, st') \<and>
           arrays st' spaces = Some xs \<and>
           result \<noteq> spaces \<and>
           arrays st result = None \<and>
           arrays st' result = Some (filterSpaces localeCompare xs filters) \<and>
           (\<forall>r. arrays st r \<noteq> None \<longrightarrow> arrays st' r = arrays st r)"
proof -
  obtain f1 st1 where s1: "newArray xs st = (f1, st1)" by (cases "newArray xs st")
  note p1 = newArray_extends[OF wf s1]
  define step2 where "step2 =
     (case query filters of
        None \<Rightarrow> (f1, st1)
      | Some q \<Rightarrow>
          if q \<noteq> [] then filterArray (matchesQuery (toLowerCase q)) f1 st1 else (f1, st1))"
  obtain f2 st2 where s2: "step2 = (f2, st2)" by (cases step2)
  define ys2 where "ys2 =
     (case query filters of
        None \<Rightarrow> xs
      | Some q \<Rightarrow> if q \<noteq> [] then filter (matchesQuery (toLowerCase q)) xs else xs)"
  have p2: "nextRef st \<le> f2 \<and> f2 < nextRef st2 \<and> arrays st2 f2 = Some ys2 \<and> wellFormedStore st2 \<and>
            (\<forall>q < nextRef st. arrays st2 q = arrays st q)"
  proof (cases "\<exists>q. query filters = Some q \<and> q \<noteq> []")
    case True
    then obtain q where q: "query filters = Some q" "q \<noteq> []" by blast
    then have "filterArray (matchesQuery (toLowerCase q)) f1 st1 = (f2, st2)"
      using s2 by (simp add: step2_def)
    note e = filterArray_extends[OF p1(4) this]
    have "readArray st1 f1 = xs" using p1(2) by (simp add: readArray_def)
    with e p1 q show ?thesis
      by (simp add: ys2_def)
  next
    case False
    then have "step2 = (f1, st1)" "ys2 = xs"
      by (auto simp: step2_def ys2_def split: option.splits)
    with s2 p1 show ?thesis by simp
  qed
  define step3 where "step3 =
     (case accessType filters of
        None \<Rightarrow> (f2, st2)
      | Some t \<Rightarrow> if t \<noteq> FilterAll then filterArray (hasAccessType t) f2 st2 else (f2, st2))"
  obtain f3 st3 where s3: "step3 = (f3, st3)" by (cases step3)
  define ys3 where "ys3 =
     (case accessType filters of
        None \<Rightarrow> ys2
      | Some t \<Rightarrow> if t \<noteq> FilterAll then filter (hasAccessType t) ys2 else ys2)"
  have p3: "nextRef st \<le> f3 \<and> arrays st3 f3 = Some ys3 \<and>
            (\<forall>q < nextRef st. arrays st3 q = arrays st q)"
  proof (cases "\<exists>t. accessType filters = Some t \<and> t \<noteq> FilterAll")
    case True
    then obtain t where t: "accessType filters = Some t" "t \<noteq> FilterAll" by blast
    then have fa: "filterArray (hasAccessType t) f2 st2 = (f3, st3)"
      using s3 by (simp add: step3_def)
    have wf2: "wellFormedStore st2" using p2 by blast
    note e = filterArray_extends[OF wf2 fa]
    have "readArray st2 f2 = ys2" using p2 by (simp add: readArray_def)
    with e p2 t show ?thesis
      by (simp add: ys3_def)
  next
    case False
    then have "step3 = (f2, st2)" "ys3 = ys2"
      by (auto simp: step3_def ys3_def split: option.splits)
    with s3 p2 show ?thesis by simp
  qed
  have below: "spaces < nextRef st"
    using wf inp by (simp add: wellFormedStore_def)
  have fresh: "arrays st f3 = None"
    using wf p3 by (auto simp: wellFormedStore_def)
  have run: "filterSpacesInStore localeCompare spaces filters st =
     (case sortBy filters of
        None \<Rightarrow> Some (f3, st3)
      | Some sb \<Rightarrow> Some (f3, sortArray (filterSpacesCompare localeCompare filters) f3 st3))"
    using inp s1 s2 s3 by (simp add: filterSpacesInStore_def step2_def step3_def)
  have val: "filterSpaces localeCompare xs filters =
     (case sortBy filters of
        None \<Rightarrow> ys3
      | Some sb \<Rightarrow> arraySort (filterSpacesCompare localeCompare filters) ys3)"
    unfolding filterSpaces_def ys3_def ys2_def Let_def by (rule refl)
  show ?thesis
  proof (cases "sortBy filters")
    case None
    with run val p3 below fresh inp wf show ?thesis
      by (auto simp: wellFormedStore_def)
  next
    case (Some sb)
    let ?st' = "sortArray (filterSpacesCompare localeCompare filters) f3 st3"
    from sortArray_arrays[of st3 f3 ys3 "filterSpacesCompare localeCompare filters"] p3
    have srt: "arrays ?st' f3 = Some (arraySort (filterSpacesCompare localeCompare filters) ys3)"
      "\<forall>q. q \<noteq> f3 \<longrightarrow> arrays ?st' q = arrays st3 q" by blast+
    have old: "\<forall>r. arrays st r \<noteq> None \<longrightarrow> arrays ?st' r = arrays st r"
    proof (intro allI impI)
      fix r assume "arrays st r \<noteq> None"
      then have "r < nextRef st" using wf by (simp add: wellFormedStore_def)
      with p3 srt show "arrays ?st' r = arrays st r" by auto
    qed
    have "arrays ?st' spaces = Some xs" using old inp by simp
    moreover have "f3 \<noteq> spaces" using below p3 by auto
    ultimately show ?thesis using Some run val srt fresh old by simp
  qed
qed

theorem C8_filterSpaces_leaves_input_unchanged_witness:
  "wellFormedStore storeBA \<and> arrays storeBA 0 = Some [spaceB, spaceA] \<and>
   (\<exists>result st'.
      filterSpacesInStore codeUnitCompare 0 (optionsOf [] byNameAsc) storeBA =
        Some (result, st') \<and>
      arrays st' 0 = Some [spaceB, spaceA] \<and>
      result \<noteq> 0 \<and>
      arrays st' result = Some [spaceA, spaceB])"
proof -
  have wf: "wellFormedStore storeBA"
    by (simp add: wellFormedStore_def storeBA_def)
  have inp: "arrays storeBA 0 = Some [spaceB, spaceA]"
    by (simp add: storeBA_def)
  have v: "filterSpaces codeUnitCompare [spaceB, spaceA] (optionsOf [] byNameAsc) =
      [spaceA, spaceB]"
    by code_simp
  show ?thesis
    using wf inp v
      C8_filterSpaces_leaves_input_unchanged[OF wf inp, of codeUnitCompare
        "optionsOf [] byNameAsc"]
    by auto
qed

text \<open>
  C10: \<open>filterSpaces\<close> and the list computed inside \<open>useSpaceSearch\<close> are to give the same
  list in the same order. The code of \<open>useSpaceSearch\<close> departs from \<open>filterSpaces\<close> in two
  places. A space without a name is sorted by its shortened identifier in \<open>filterSpaces\<close>
  and by its whole identifier in \<open>useSpaceSearch\<close>: two nameless spaces whose identifiers
  shorten to the same string stay in input order in the first and are put in identifier
  order by the second. And with the access type \<open>undefined\<close>, \<open>filterSpaces\<close> does not
  filter, while \<open>useSpaceSearch\<close> keeps only the spaces that have no access type.
\<close>

theorem C10_useSpaceSearch_departs_from_filterSpaces:
  "filterSpaces codeUnitCompare [longB, longA] (optionsOf [] byNameAsc) = [longB, longA] \<and>
   useSpaceSearch codeUnitCompare [longB, longA] [] byNameAsc = [longA, longB] \<and>
   filterSpaces codeUnitCompare [spaceA] (optionsOf [] accessUnset) = [spaceA] \<and>
   useSpaceSearch codeUnitCompare [spaceA] [] accessUnset = []"
  by code_simp


section \<open>Facts about the validators\<close>





lemma startsWith_iff: "startsWith s p \<longleftrightarrow> (\<exists>v. s = p @ v)"
  by (induction s p rule: startsWith.induct) auto

lemma includesStr_iff: "includesStr s sub \<longleftrightarrow> (\<exists>u v. s = u @ sub @ v)"
proof (induction s)
  case Nil
  then show ?case by simp
next
  case (Cons c cs)
  show ?case
  proof
    assume "includesStr (c # cs) sub"
    then consider "startsWith (c # cs) sub" | "includesStr cs sub" by auto
    then show "\<exists>u v. c # cs = u @ sub @ v"
    proof cases
      case 1
      then obtain v where "c # cs = sub @ v" by (auto simp: startsWith_iff)
      then have "c # cs = [] @ sub @ v" by simp
      then show ?thesis by blast
    next
      case 2
      then obtain u v where "cs = u @ sub @ v" using Cons.IH by blast
      then have "c # cs = (c # u) @ sub @ v" by simp
      then show ?thesis by blast
    qed
  next
    assume "\<exists>u v. c # cs = u @ sub @ v"
    then obtain u v where uv: "c # cs = u @ sub @ v" by blast
    show "includesStr (c # cs) sub"
    proof (cases u)
      case Nil
      with uv have "startsWith (c # cs) sub" by (auto simp: startsWith_iff)
      then show ?thesis by simp
    next
      case (Cons d u')
      with uv have "cs = u' @ sub @ v" by simp
      then have "includesStr cs sub" using Cons.IH by blast
      then show ?thesis by simp
    qed
  qed
qed

lemma includesStr_char: "includesStr s [c] \<longleftrightarrow> c \<in> set s"
  by (induction s) auto

lemma trim_empty_iff: "length (trim s) = 0 \<longleftrightarrow> (\<forall>c \<in> set s. isWhitespace c)"
proof -
  have "trim s = [] \<longleftrightarrow> (\<forall>c \<in> set (dropWhile isWhitespace s). isWhitespace c)"
    by (simp add: trim_def dropWhile_eq_Nil_conv)
  also have "\<dots> \<longleftrightarrow> dropWhile isWhitespace s = []"
  proof
    assume all: "\<forall>c \<in> set (dropWhile isWhitespace s). isWhitespace c"
    show "dropWhile isWhitespace s = []"
    proof (rule ccontr)
      assume ne: "dropWhile isWhitespace s \<noteq> []"
      then have "\<not> isWhitespace (hd (dropWhile isWhitespace s))" by (rule hd_dropWhile)
      moreover have "hd (dropWhile isWhitespace s) \<in> set (dropWhile isWhitespace s)"
        using ne by simp
      ultimately show False using all by blast
    qed
  next
    assume "dropWhile isWhitespace s = []"
    then have "set (dropWhile isWhitespace s) = {}" by (simp only: set_empty)
    then show "\<forall>c \<in> set (dropWhile isWhitespace s). isWhitespace c"
      by (simp only: ball_empty)
  qed
  also have "\<dots> \<longleftrightarrow> (\<forall>c \<in> set s. isWhitespace c)"
    by (simp add: dropWhile_eq_Nil_conv)
  finally show ?thesis by simp
qed

lemma firstReserved_iff:
  "firstReserved parts \<noteq> None \<longleftrightarrow>
   (\<exists>part \<in> set parts. toUpperCase part \<in> set (map codeUnits reservedNames))"
  by (induction parts) auto

lemma upperTable_values:
  "map_of upperTable c = Some u \<Longrightarrow> u \<in> set (map snd upperTable)"
  by (metis map_of_SomeD set_zip_rightD zip_map_fst_snd)

lemma upperUnits_cases:
  "upperUnits c = [of_char c] \<and> map_of upperTable c = None \<or>
   upperUnits c \<in> set (map snd upperTable)"
proof (cases "map_of upperTable c")
  case None
  then show ?thesis by (simp add: upperUnits_def)
next
  case (Some u)
  then have "u \<in> set (map snd upperTable)" by (rule upperTable_values)
  moreover have "upperUnits c = u" using Some by (simp add: upperUnits_def)
  ultimately show ?thesis by blast
qed

lemma upperTable_no_dots:
  "[] \<notin> set (map snd upperTable)"
  "[46] \<notin> set (map snd upperTable)"
  "[46, 46] \<notin> set (map snd upperTable)"
  by code_simp+

lemma dot_unmapped: "upperUnits (CHR ''.'') = [46]"
  by code_simp

lemma upperUnits_nonempty: "upperUnits c \<noteq> []"
  using upperUnits_cases[of c] upperTable_no_dots(1) by (metis list.distinct(1))

lemma upperUnits_dot: "upperUnits c = [46] \<longleftrightarrow> c = CHR ''.''"
proof
  assume eq: "upperUnits c = [46]"
  from upperUnits_cases[of c] eq upperTable_no_dots(2)
  have "[of_char c] = [46::nat]" by metis
  then have "(of_char c :: nat) = of_char (CHR ''.'')" by simp
  then show "c = CHR ''.''" by (simp only: of_char_eq_iff)
next
  assume "c = CHR ''.''"
  then show "upperUnits c = [46]" using dot_unmapped by simp
qed

lemma upperUnits_not_dotdot: "upperUnits c \<noteq> [46, 46]"
  using upperUnits_cases[of c] upperTable_no_dots(3) by (metis list.inject list.distinct(1))

lemma toUpperCase_empty: "toUpperCase cs = [] \<longleftrightarrow> cs = []"
proof (cases cs)
  case (Cons d ds)
  with upperUnits_nonempty[of d] show ?thesis by (simp add: toUpperCase_def)
qed (simp add: toUpperCase_def)

lemma toUpperCase_one: "toUpperCase part = [46] \<longleftrightarrow> part = ''.''"
proof
  assume eq: "toUpperCase part = [46]"
  show "part = ''.''"
  proof (cases part)
    case Nil
    with eq show ?thesis by (simp add: toUpperCase_def)
  next
    case (Cons c cs)
    with eq have cat: "upperUnits c @ toUpperCase cs = [46]"
      by (simp add: toUpperCase_def)
    have ne: "upperUnits c \<noteq> []" by (rule upperUnits_nonempty)
    from cat ne have one: "upperUnits c = [46]" and rest: "toUpperCase cs = []"
      by (auto simp: append_eq_Cons_conv)
    from rest have "cs = []" by (simp only: toUpperCase_empty)
    moreover from one have "c = CHR ''.''" by (simp only: upperUnits_dot)
    ultimately show ?thesis using Cons by simp
  qed
next
  assume "part = ''.''"
  then show "toUpperCase part = [46]" by (simp add: toUpperCase_def dot_unmapped)
qed

lemma toUpperCase_two: "toUpperCase part = [46, 46] \<longleftrightarrow> part = ''..''"
proof
  assume eq: "toUpperCase part = [46, 46]"
  show "part = ''..''"
  proof (cases part)
    case Nil
    with eq show ?thesis by (simp add: toUpperCase_def)
  next
    case (Cons c cs)
    with eq have cat: "upperUnits c @ toUpperCase cs = [46, 46]"
      by (simp add: toUpperCase_def)
    have ne: "upperUnits c \<noteq> []" by (rule upperUnits_nonempty)
    have nd: "upperUnits c \<noteq> [46, 46]" by (rule upperUnits_not_dotdot)
    from cat ne nd have one: "upperUnits c = [46]" and rest: "toUpperCase cs = [46]"
      by (auto simp: append_eq_Cons_conv)
    from rest have "cs = ''.''" by (simp only: toUpperCase_one)
    moreover from one have "c = CHR ''.''" by (simp only: upperUnits_dot)
    ultimately show ?thesis using Cons by simp
  qed
next
  assume "part = ''..''"
  then show "toUpperCase part = [46, 46]" by (simp add: toUpperCase_def dot_unmapped)
qed

lemma toUpperCase_dot: "toUpperCase part = codeUnits ''.'' \<longleftrightarrow> part = ''.''"
  using toUpperCase_one[of part] by (simp add: codeUnits_def)

lemma toUpperCase_dotdot: "toUpperCase part = codeUnits ''..'' \<longleftrightarrow> part = ''..''"
  using toUpperCase_two[of part] by (simp add: codeUnits_def)

lemma validatePath_only_path: "field \<noteq> ''path'' \<Longrightarrow> validatePath path field = None"
  by (simp add: validatePath_def Let_def split: option.splits)

lemma validatePath_path_iff:
  "validatePath path ''path'' \<noteq> None \<longleftrightarrow>
     (path = [] \<or> length (trim path) = 0 \<or> includesStr path ''..'' \<or> includesStr path ''~'' \<or>
      firstReserved (pathParts path) \<noteq> None \<or> length path > 260)"
  by (auto simp: validatePath_def Let_def split: option.splits)

lemma reserved_names_split:
  "set (map codeUnits reservedNames) =
     {codeUnits ''.'', codeUnits ''..''} \<union> set (map codeUnits deviceNames)"
  by (simp add: reservedNames_def)

lemma reserved_part_iff:
  "(\<exists>part \<in> set (pathParts path). toUpperCase part \<in> set (map codeUnits reservedNames)) \<longleftrightarrow>
   (\<exists>part \<in> set (split (CHR ''/'') path).
      part = ''.'' \<or> part = ''..'' \<or> toUpperCase part \<in> set (map codeUnits deviceNames))"
proof -
  have empty: "toUpperCase [] \<notin> set (map codeUnits deviceNames)"
    by code_simp
  have each: "\<And>part. toUpperCase part \<in> set (map codeUnits reservedNames) \<longleftrightarrow>
      part = ''.'' \<or> part = ''..'' \<or> toUpperCase part \<in> set (map codeUnits deviceNames)"
  proof -
    fix part
    have "toUpperCase part \<in> set (map codeUnits reservedNames) \<longleftrightarrow>
        toUpperCase part = codeUnits ''.'' \<or> toUpperCase part = codeUnits ''..'' \<or>
        toUpperCase part \<in> set (map codeUnits deviceNames)"
      unfolding reserved_names_split by blast
    then show "toUpperCase part \<in> set (map codeUnits reservedNames) \<longleftrightarrow>
      part = ''.'' \<or> part = ''..'' \<or> toUpperCase part \<in> set (map codeUnits deviceNames)"
      by (simp only: toUpperCase_dot toUpperCase_dotdot)
  qed
  have parts: "set (pathParts path) = {part \<in> set (split (CHR ''/'') path). part \<noteq> []}"
    by (simp add: pathParts_def)
  show ?thesis
  proof
    assume "\<exists>part \<in> set (pathParts path). toUpperCase part \<in> set (map codeUnits reservedNames)"
    then obtain part where "part \<in> set (split (CHR ''/'') path)"
      and "toUpperCase part \<in> set (map codeUnits reservedNames)"
      unfolding parts by blast
    then show "\<exists>part \<in> set (split (CHR ''/'') path).
      part = ''.'' \<or> part = ''..'' \<or> toUpperCase part \<in> set (map codeUnits deviceNames)"
      using each by blast
  next
    assume "\<exists>part \<in> set (split (CHR ''/'') path).
      part = ''.'' \<or> part = ''..'' \<or> toUpperCase part \<in> set (map codeUnits deviceNames)"
    then obtain part where inp: "part \<in> set (split (CHR ''/'') path)"
      and res: "part = ''.'' \<or> part = ''..'' \<or> toUpperCase part \<in> set (map codeUnits deviceNames)"
      by blast
    from res empty have "part \<noteq> []" by auto
    with inp have "part \<in> set (pathParts path)" unfolding parts by blast
    moreover from res have "toUpperCase part \<in> set (map codeUnits reservedNames)"
      using each by blast
    ultimately show "\<exists>part \<in> set (pathParts path).
      toUpperCase part \<in> set (map codeUnits reservedNames)" by blast
  qed
qed


section \<open>Claims about the validators\<close>






text \<open>
  C9 (as stated): \<open>validatePath\<close> reports an error exactly when the path is empty or
  blank, or has a segment equal to \<open>.\<close>, \<open>..\<close> or \<open>~\<close>, or a segment that is a reserved
  device name, or is longer than 260 characters. The traversal check looks for \<open>..\<close> and
  \<open>~\<close> anywhere in the path, not for whole segments: the path \<open>a..b\<close> is one segment, none
  of the listed ones, four characters long, and it is rejected.
\<close>

theorem C9_validatePath_substring_counterexample:
  "validatePath ''a..b'' ''path'' = Some ''Invalid path: path traversal not allowed'' \<and>
   trim ''a..b'' \<noteq> [] \<and>
   split (CHR ''/'') ''a..b'' = [''a..b''] \<and>
   ''a..b'' \<notin> set [''.'', ''..'', ''~''] \<and>
   toUpperCase ''a..b'' \<notin> set (map codeUnits deviceNames) \<and>
   \<not> length ''a..b'' > 260"
  by code_simp


text \<open>
  C9 (amended): \<open>validatePath\<close> returns an error for the path field if and only if the
  path is empty or consists of white space only, or contains \<open>..\<close> as a substring or the
  character \<open>~\<close> anywhere, or has a segment (between \<open>/\<close>) equal to \<open>.\<close> or \<open>..\<close> or equal,
  when upper-cased, to a reserved device name, or is longer than 260 characters; for
  every other path it returns the empty error map.
\<close>

theorem C9_validatePath_rejects_iff:
  "(validatePath path ''path'' \<noteq> None \<longleftrightarrow>
      (\<forall>c \<in> set path. isWhitespace c) \<or>
      (\<exists>u v. path = u @ ''..'' @ v) \<or>
      CHR ''~'' \<in> set path \<or>
      (\<exists>part \<in> set (split (CHR ''/'') path).
         part = ''.'' \<or> part = ''..'' \<or> toUpperCase part \<in> set (map codeUnits deviceNames)) \<or>
      length path > 260) \<and>
   (validatePath path ''path'' = None \<longrightarrow> validatePath path = Map.empty)"
proof
  have blank: "path = [] \<or> length (trim path) = 0 \<longleftrightarrow> (\<forall>c \<in> set path. isWhitespace c)"
    using trim_empty_iff[of path] by auto
  have dotdot: "includesStr path ''..'' \<longleftrightarrow> (\<exists>u v. path = u @ ''..'' @ v)"
    by (rule includesStr_iff)
  have tilde: "includesStr path ''~'' \<longleftrightarrow> CHR ''~'' \<in> set path"
    by (rule includesStr_char)
  have "validatePath path ''path'' \<noteq> None \<longleftrightarrow>
     (path = [] \<or> length (trim path) = 0) \<or> includesStr path ''..'' \<or> includesStr path ''~'' \<or>
      firstReserved (pathParts path) \<noteq> None \<or> length path > 260"
    using validatePath_path_iff[of path] by blast
  then show "validatePath path ''path'' \<noteq> None \<longleftrightarrow>
      (\<forall>c \<in> set path. isWhitespace c) \<or>
      (\<exists>u v. path = u @ ''..'' @ v) \<or>
      CHR ''~'' \<in> set path \<or>
      (\<exists>part \<in> set (split (CHR ''/'') path).
         part = ''.'' \<or> part = ''..'' \<or> toUpperCase part \<in> set (map codeUnits deviceNames)) \<or>
      length path > 260"
    by (simp only: blank dotdot tilde firstReserved_iff reserved_part_iff)
next
  show "validatePath path ''path'' = None \<longrightarrow> validatePath path = Map.empty"
  proof
    assume none: "validatePath path ''path'' = None"
    show "validatePath path = Map.empty"
    proof
      fix field
      show "validatePath path field = None"
        using none validatePath_only_path[of field path] by (cases "field = ''path''") simp_all
    qed
  qed
qed

theorem C9_validatePath_rejects_iff_witness:
  "''nul'' \<in> set (split (CHR ''/'') ''docs/nul/a.txt'') \<and>
   toUpperCase ''nul'' \<in> set (map codeUnits deviceNames) \<and>
   validatePath ''docs/nul/a.txt'' ''path'' \<noteq> None \<and>
   validatePath ''docs/a.txt'' ''path'' = None \<and>
   validatePath ''docs/a.txt'' = Map.empty"
proof -
  have part: "''nul'' \<in> set (split (CHR ''/'') ''docs/nul/a.txt'')"
    by code_simp
  have dev: "toUpperCase ''nul'' \<in> set (map codeUnits deviceNames)"
    by code_simp
  have ok: "validatePath ''docs/a.txt'' ''path'' = None"
    by code_simp
  from part dev have "\<exists>part \<in> set (split (CHR ''/'') ''docs/nul/a.txt'').
      part = ''.'' \<or> part = ''..'' \<or> toUpperCase part \<in> set (map codeUnits deviceNames)"
    by blast
  then have "validatePath ''docs/nul/a.txt'' ''path'' \<noteq> None"
    using C9_validatePath_rejects_iff[of "''docs/nul/a.txt''"] by blast
  moreover have "validatePath ''docs/a.txt'' = Map.empty"
    using ok C9_validatePath_rejects_iff[of "''docs/a.txt''"] by blast
  ultimately show ?thesis using part dev ok by blast
qed


section \<open>Facts about retrying\<close>
















section \<open>Claim about retrying\<close>





section \<open>Facts about debounce and throttle\<close>













section \<open>Claims about debounce and throttle\<close>





end
